theory Spec2Isabelle
  imports Main
begin

section \<open>The stream client of mexc\_api/websocket/websocket\_stream.py\<close>

text \<open>
  The class \<open>SpotWebsocketStreamClient\<close> keeps a set of topic strings and talks to two
  collaborators: the transport \<open>MexcWebsocketApp\<close> (send, close) and the caller's
  callbacks (\<open>on_open\<close>, \<open>on_message\<close>). The methods return nothing; all they do is
  mutate \<open>self.streams\<close> and call the collaborators. The model therefore passes the
  client around as a record and writes every call that leaves the client into one
  chronological log, so that the order of sends, callbacks and set updates can be read
  off the result. A method that can raise returns \<open>Inl\<close> of the error and of the client as
  the raise leaves it, and \<open>Inr\<close> of the client when it returns.

  What the surroundings decide is an argument of the model, written before the client:
  which messages the transport refuses (\<open>raises\<close>), how \<open>json.loads\<close> decodes (\<open>loads\<close>),
  how Python maps the case of text beyond ASCII (\<open>unicode_upper\<close>), and the order in which
  a set is iterated (\<open>order\<close>).

  Methods whose Python name starts with an underscore carry the prefix \<open>priv_\<close> here,
  since an Isabelle name cannot start with one; \<open>__init__\<close> is \<open>init\<close>.
\<close>

subsection \<open>Enumerations\<close>

datatype Action = SUBSCRIBE | UNSUBSCRIBE

text \<open>
  Modelled from the spec: the members' values of the enum \<open>Action\<close>, declared in
  mexc\_api/common/enums.py. The wire format of the spec gives the two method strings.
\<close>

fun Action_value :: "Action \<Rightarrow> string" where
  "Action_value SUBSCRIBE = ''SUBSCRIBE''"
| "Action_value UNSUBSCRIBE = ''UNSUBSCRIBE''"

text \<open>
  Modelled from the spec: the enum \<open>StreamInterval\<close>, declared in
  mexc\_api/common/enums.py. The spec calls it a fixed enumerated set of granularities and
  names one member, \<open>Min15\<close>, whose value is its name. A member is represented by the
  string that \<open>interval.value\<close> returns, which is all that \<open>klines\<close> reads of it.
\<close>

datatype StreamInterval = StreamInterval (interval_value: string)

definition Min15 :: StreamInterval where
  "Min15 = StreamInterval ''Min15''"

subsection \<open>Strings: \<open>str.upper\<close> and the decimal rendering of an integer\<close>

text \<open>
  A \<open>string\<close> is a list of 8-bit characters: the UTF-8 encoding of the Python \<open>str\<close>.
  Concatenation and equality of the encodings are those of the strings. A string is ASCII
  when every character is below 128.

  On ASCII text \<open>str.upper\<close> maps a--z to A--Z and leaves every other character alone;
  \<open>upper_char\<close> is this map. On text with characters beyond ASCII Python follows the
  Unicode case tables, which are not part of this development: there \<open>upper\<close> returns what
  the argument \<open>unicode_upper\<close> returns.
\<close>

definition upper_char :: "char \<Rightarrow> char" where
  "upper_char c =
     (case map_of (zip ''abcdefghijklmnopqrstuvwxyz'' ''ABCDEFGHIJKLMNOPQRSTUVWXYZ'') c of
        Some u \<Rightarrow> u
      | None \<Rightarrow> c)"

definition is_ascii :: "string \<Rightarrow> bool" where
  "is_ascii s = list_all (\<lambda>c. (of_char c :: nat) < 128) s"

definition upper :: "(string \<Rightarrow> string) \<Rightarrow> string \<Rightarrow> string" where
  "upper unicode_upper s = (if is_ascii s then map upper_char s else unicode_upper s)"

text \<open>
  An f-string field \<open>{level}\<close> with an \<open>int\<close> inserts \<open>str(level)\<close>: the decimal digits,
  most significant first, after a minus sign when the number is negative.
\<close>

definition digit_char :: "nat \<Rightarrow> char" where
  "digit_char d = ''0123456789'' ! d"

fun str_nat :: "nat \<Rightarrow> string" where
  "str_nat n = (if n < 10 then [digit_char n] else str_nat (n div 10) @ [digit_char (n mod 10)])"

definition str_int :: "int \<Rightarrow> string" where
  "str_int i = (if i < 0 then CHR ''-'' # str_nat (nat (- i)) else str_nat (nat i))"

subsection \<open>State and collaborators\<close>

text \<open>
  \<open>TransportError\<close> stands for whatever exception the transport raises from a send.
\<close>

datatype py_error = JSONDecodeError | RuntimeError | TransportError

text \<open>
  The dict \<open>{"method": ..., "params": [...]}\<close> handed to the transport; the key
  \<open>"method"\<close> is the field \<open>msg_method\<close>.
\<close>

record wire_message =
  msg_method :: string
  params :: "string list"

text \<open>
  One entry of the log per call that leaves the client. A call of the transport's send is
  \<open>SendMessage\<close> when the transport returns and \<open>SendRaised\<close> when it raises. Both note
  \<open>self.streams\<close> as it stands when the transport is called: a handler that the transport
  runs at that moment would see this set.
\<close>

datatype 'd event =
    SendMessage wire_message "string set"
  | SendRaised wire_message "string set"
  | Close
  | OnOpen
  | OnMessage 'd

text \<open>
  The fields of the object: \<open>streams\<close>; \<open>on_open\<close>, here only whether a callback was
  given (\<open>if self.on_open\<close>); \<open>on_message\<close> is always given. \<open>calls\<close> is the log. The type
  \<open>'d\<close> is that of decoded documents.
\<close>

record 'd SpotWebsocketStreamClient =
  streams :: "string set"
  on_open :: bool
  calls :: "'d event list"

definition init :: "bool \<Rightarrow> 'd SpotWebsocketStreamClient" where
  "init has_on_open = \<lparr>streams = {}, on_open = has_on_open, calls = []\<rparr>"

text \<open>
  Modelled from the spec: the transport \<open>MexcWebsocketApp\<close>, declared in
  mexc\_api/websocket/mexc\_websocket\_app.py. The spec gives its contract as
  \<open>send(message) -> void\<close>, which "fails silently or raises per transport's own policy",
  and \<open>close() -> void\<close>. The policy at the time of a call is the argument \<open>raises\<close>: the
  messages on which send raises. A send that fails silently returns like one that
  succeeds, and the client cannot tell them apart.
\<close>

definition send_message ::
  "(wire_message \<Rightarrow> bool) \<Rightarrow> 'd SpotWebsocketStreamClient \<Rightarrow> wire_message \<Rightarrow>
     (py_error \<times> 'd SpotWebsocketStreamClient) + 'd SpotWebsocketStreamClient" where
  "send_message raises c m =
     (if raises m then Inl (TransportError, c\<lparr>calls := calls c @ [SendRaised m (streams c)]\<rparr>)
      else Inr (c\<lparr>calls := calls c @ [SendMessage m (streams c)]\<rparr>))"

definition close :: "'d SpotWebsocketStreamClient \<Rightarrow> 'd SpotWebsocketStreamClient" where
  "close c = c\<lparr>calls := calls c @ [Close]\<rparr>"

subsection \<open>The methods\<close>

text \<open>
  There is no \<open>try\<close> in the class: when the send on line 55 raises, lines 56 and 57 do not
  run, and the topic added on line 53 stays in the set.
\<close>

definition priv_change_subscription ::
  "(wire_message \<Rightarrow> bool) \<Rightarrow> 'd SpotWebsocketStreamClient \<Rightarrow> string \<Rightarrow> Action \<Rightarrow>
     (py_error \<times> 'd SpotWebsocketStreamClient) + 'd SpotWebsocketStreamClient" where
  "priv_change_subscription raises c stream action =
     (let c1 = c\<lparr>streams := insert stream (streams c)\<rparr>;
          message = \<lparr>msg_method = Action_value action, params = [stream]\<rparr>
      in case send_message raises c1 message of
           Inl e \<Rightarrow> Inl e
         | Inr c2 \<Rightarrow>
             if action = UNSUBSCRIBE then Inr (c2\<lparr>streams := streams c2 - {stream}\<rparr>)
             else Inr c2)"

text \<open>
  \<open>for stream in self.streams\<close> visits the members in an order that Python does not fix;
  the order is the argument \<open>order\<close>, an enumeration of the set without repetition. A set
  whose size changes while it is iterated makes the next step of the iteration raise
  \<open>RuntimeError\<close>; the loop checks this after every pass of the body, as the iterator does.
  A send that raises inside the body ends the loop there.
\<close>

fun replay ::
  "(wire_message \<Rightarrow> bool) \<Rightarrow> 'd SpotWebsocketStreamClient \<Rightarrow> nat \<Rightarrow> string list \<Rightarrow>
     (py_error \<times> 'd SpotWebsocketStreamClient) + 'd SpotWebsocketStreamClient" where
  "replay raises c used [] =
     (if card (streams c) \<noteq> used then Inl (RuntimeError, c) else Inr c)"
| "replay raises c used (stream # rest) =
     (if card (streams c) \<noteq> used then Inl (RuntimeError, c)
      else case priv_change_subscription raises c stream SUBSCRIBE of
             Inl e \<Rightarrow> Inl e
           | Inr c' \<Rightarrow> replay raises c' used rest)"

definition priv_on_open ::
  "(wire_message \<Rightarrow> bool) \<Rightarrow> 'd SpotWebsocketStreamClient \<Rightarrow> string list \<Rightarrow>
     (py_error \<times> 'd SpotWebsocketStreamClient) + 'd SpotWebsocketStreamClient" where
  "priv_on_open raises c order =
     (case replay raises c (card (streams c)) order of
        Inl e \<Rightarrow> Inl e
      | Inr c' \<Rightarrow> if on_open c' then Inr (c'\<lparr>calls := calls c' @ [OnOpen]\<rparr>) else Inr c')"

text \<open>
  \<open>json.loads\<close> belongs to Python's library; the decoder is the argument \<open>loads\<close>, which
  returns \<open>None\<close> where \<open>json.loads\<close> raises \<open>JSONDecodeError\<close>. There is no \<open>try\<close> around
  it.
\<close>

definition priv_on_message ::
  "(string \<Rightarrow> 'd option) \<Rightarrow> 'd SpotWebsocketStreamClient \<Rightarrow> string \<Rightarrow>
     (py_error \<times> 'd SpotWebsocketStreamClient) + 'd SpotWebsocketStreamClient" where
  "priv_on_message loads c message =
     (case loads message of
        None \<Rightarrow> Inl (JSONDecodeError, c)
      | Some doc \<Rightarrow> Inr (c\<lparr>calls := calls c @ [OnMessage doc]\<rparr>))"

definition stop :: "'d SpotWebsocketStreamClient \<Rightarrow> 'd SpotWebsocketStreamClient" where
  "stop c = close c"

definition trades ::
  "(string \<Rightarrow> string) \<Rightarrow> (wire_message \<Rightarrow> bool) \<Rightarrow> 'd SpotWebsocketStreamClient \<Rightarrow>
     string \<Rightarrow> Action \<Rightarrow>
     (py_error \<times> 'd SpotWebsocketStreamClient) + 'd SpotWebsocketStreamClient" where
  "trades unicode_upper raises c symbol action =
     priv_change_subscription raises c
       (''spot@public.deals.v3.api@'' @ upper unicode_upper symbol) action"

definition klines ::
  "(string \<Rightarrow> string) \<Rightarrow> (wire_message \<Rightarrow> bool) \<Rightarrow> 'd SpotWebsocketStreamClient \<Rightarrow>
     string \<Rightarrow> StreamInterval \<Rightarrow> Action \<Rightarrow>
     (py_error \<times> 'd SpotWebsocketStreamClient) + 'd SpotWebsocketStreamClient" where
  "klines unicode_upper raises c symbol interval action =
     priv_change_subscription raises c
       (''spot@public.kline.v3.api@'' @ upper unicode_upper symbol @ ''@'' @
        interval_value interval) action"

definition diff_depth ::
  "(string \<Rightarrow> string) \<Rightarrow> (wire_message \<Rightarrow> bool) \<Rightarrow> 'd SpotWebsocketStreamClient \<Rightarrow>
     string \<Rightarrow> Action \<Rightarrow>
     (py_error \<times> 'd SpotWebsocketStreamClient) + 'd SpotWebsocketStreamClient" where
  "diff_depth unicode_upper raises c symbol action =
     priv_change_subscription raises c
       (''spot@public.increase.depth.v3.api@'' @ upper unicode_upper symbol) action"

text \<open>
  \<open>level: Literal[5, 10, 20]\<close> is an annotation; Python does not check it when the method
  is called, and the body has no check of its own. The argument is an integer.
\<close>

definition partial_depth ::
  "(string \<Rightarrow> string) \<Rightarrow> (wire_message \<Rightarrow> bool) \<Rightarrow> 'd SpotWebsocketStreamClient \<Rightarrow>
     string \<Rightarrow> int \<Rightarrow> Action \<Rightarrow>
     (py_error \<times> 'd SpotWebsocketStreamClient) + 'd SpotWebsocketStreamClient" where
  "partial_depth unicode_upper raises c symbol level action =
     priv_change_subscription raises c
       (''spot@public.limit.depth.v3.api@'' @ upper unicode_upper symbol @ ''@'' @
        str_int level) action"

definition book_ticker ::
  "(string \<Rightarrow> string) \<Rightarrow> (wire_message \<Rightarrow> bool) \<Rightarrow> 'd SpotWebsocketStreamClient \<Rightarrow>
     string \<Rightarrow> Action \<Rightarrow>
     (py_error \<times> 'd SpotWebsocketStreamClient) + 'd SpotWebsocketStreamClient" where
  "book_ticker unicode_upper raises c symbol action =
     priv_change_subscription raises c
       (''spot@public.bookTicker.v3.api@'' @ upper unicode_upper symbol) action"

definition account_updates ::
  "(wire_message \<Rightarrow> bool) \<Rightarrow> 'd SpotWebsocketStreamClient \<Rightarrow> Action \<Rightarrow>
     (py_error \<times> 'd SpotWebsocketStreamClient) + 'd SpotWebsocketStreamClient" where
  "account_updates raises c action =
     priv_change_subscription raises c ''spot@private.account.v3.api'' action"

definition account_deals ::
  "(wire_message \<Rightarrow> bool) \<Rightarrow> 'd SpotWebsocketStreamClient \<Rightarrow> Action \<Rightarrow>
     (py_error \<times> 'd SpotWebsocketStreamClient) + 'd SpotWebsocketStreamClient" where
  "account_deals raises c action =
     priv_change_subscription raises c ''spot@private.deals.v3.api'' action"

definition account_orders ::
  "(wire_message \<Rightarrow> bool) \<Rightarrow> 'd SpotWebsocketStreamClient \<Rightarrow> Action \<Rightarrow>
     (py_error \<times> 'd SpotWebsocketStreamClient) + 'd SpotWebsocketStreamClient" where
  "account_orders raises c action =
     priv_change_subscription raises c ''spot@private.orders.v3.api'' action"

subsection \<open>Reading results and logs, and sequences of calls\<close>

text \<open>The client as a call leaves it, whether the call returned or raised.\<close>

fun state_after ::
  "(py_error \<times> 'd SpotWebsocketStreamClient) + 'd SpotWebsocketStreamClient \<Rightarrow>
     'd SpotWebsocketStreamClient" where
  "state_after (Inl (e, c)) = c"
| "state_after (Inr c) = c"

text \<open>The messages that the transport took, in the order of the sends.\<close>

fun sent :: "'d event list \<Rightarrow> wire_message list" where
  "sent [] = []"
| "sent (SendMessage m S # es) = m # sent es"
| "sent (e # es) = sent es"

text \<open>
  A caller's sequence of subscribe and unsubscribe calls, first call first. Each call
  comes with what the transport does with its send (\<open>True\<close>: it raises). A caller that
  catches the error goes on with the client as the raise left it.
\<close>

fun change_all ::
  "'d SpotWebsocketStreamClient \<Rightarrow> (string \<times> Action \<times> bool) list \<Rightarrow>
     'd SpotWebsocketStreamClient" where
  "change_all c [] = c"
| "change_all c ((stream, action, send_raises) # rest) =
     change_all (state_after (priv_change_subscription (\<lambda>m. send_raises) c stream action)) rest"

text \<open>The requests of such a sequence: topic and action of each call.\<close>

definition requests :: "(string \<times> Action \<times> bool) list \<Rightarrow> (string \<times> Action) list" where
  "requests cs = map (\<lambda>(stream, action, send_raises). (stream, action)) cs"

text \<open>
  The two readings of the spec's invariant, written from its words and not from the
  code. \<open>last_action\<close> is what the most recent entry for a topic carries, if there is one:
  the action, for a list of requests. \<open>subscribed_not_since_unsubscribed\<close> holds when some
  request subscribed the topic and no later request unsubscribed it.
\<close>

fun last_action :: "(string \<times> 'a) list \<Rightarrow> string \<Rightarrow> 'a option" where
  "last_action [] t = None"
| "last_action ((s, a) # rest) t =
     (case last_action rest t of
        Some b \<Rightarrow> Some b
      | None \<Rightarrow> if s = t then Some a else None)"

fun subscribed_not_since_unsubscribed :: "(string \<times> Action) list \<Rightarrow> string \<Rightarrow> bool" where
  "subscribed_not_since_unsubscribed [] t = False"
| "subscribed_not_since_unsubscribed ((s, a) # rest) t =
     ((s = t \<and> a = SUBSCRIBE \<and> (t, UNSUBSCRIBE) \<notin> set rest)
      \<or> subscribed_not_since_unsubscribed rest t)"

section \<open>Upper-casing of ASCII text\<close>

text \<open>
  The table of \<open>upper_char\<close> against arithmetic on code points: a character from 97 (a) to
  122 (z) goes to the one 32 below it, every other character stays.
\<close>

lemma upper_char_code_point:
  "upper_char c =
     (if 97 \<le> (of_char c :: nat) \<and> (of_char c :: nat) \<le> 122
      then char_of ((of_char c :: nat) - 32) else c)"
proof (cases c)
  case (Char b0 b1 b2 b3 b4 b5 b6 b7)
  show ?thesis
    unfolding Char upper_char_def
    by (cases b0; cases b1; cases b2; cases b3; cases b4; cases b5; cases b6; cases b7)
       (simp_all add: char_of_def bit_Suc_0_iff)
qed

lemma upper_ascii:
  "is_ascii s \<Longrightarrow>
   upper unicode_upper s =
     map (\<lambda>ch. if 97 \<le> (of_char ch :: nat) \<and> (of_char ch :: nat) \<le> 122
               then char_of ((of_char ch :: nat) - 32) else ch) s"
  by (simp add: upper_def upper_char_code_point)

section \<open>What one change of subscription does\<close>

lemma change_subscription_result:
  "priv_change_subscription raises c t a =
     (if raises \<lparr>msg_method = Action_value a, params = [t]\<rparr>
      then Inl (TransportError,
             c\<lparr>streams := insert t (streams c),
               calls := calls c @
                 [SendRaised \<lparr>msg_method = Action_value a, params = [t]\<rparr>
                    (insert t (streams c))]\<rparr>)
      else Inr (c\<lparr>streams := (if a = UNSUBSCRIBE then streams c - {t} else insert t (streams c)),
                 calls := calls c @
                   [SendMessage \<lparr>msg_method = Action_value a, params = [t]\<rparr>
                      (insert t (streams c))]\<rparr>))"
  by (simp add: priv_change_subscription_def send_message_def Let_def)

lemma streams_after_change:
  "streams (state_after (priv_change_subscription raises c t a)) =
     (if a = UNSUBSCRIBE \<and> \<not> raises \<lparr>msg_method = Action_value a, params = [t]\<rparr>
      then streams c - {t} else insert t (streams c))"
  by (simp add: change_subscription_result)

lemma calls_after_change:
  "calls (state_after (priv_change_subscription raises c t a)) =
     calls c @
     [if raises \<lparr>msg_method = Action_value a, params = [t]\<rparr>
      then SendRaised \<lparr>msg_method = Action_value a, params = [t]\<rparr> (insert t (streams c))
      else SendMessage \<lparr>msg_method = Action_value a, params = [t]\<rparr> (insert t (streams c))]"
  by (simp add: change_subscription_result)

lemma sent_append: "sent (xs @ ys) = sent xs @ sent ys"
  by (induction xs rule: sent.induct) simp_all

lemma subscribe_member:
  "t \<in> streams c \<Longrightarrow>
   priv_change_subscription raises c t SUBSCRIBE =
     (if raises \<lparr>msg_method = ''SUBSCRIBE'', params = [t]\<rparr>
      then Inl (TransportError,
             c\<lparr>calls := calls c @
                 [SendRaised \<lparr>msg_method = ''SUBSCRIBE'', params = [t]\<rparr> (streams c)]\<rparr>)
      else Inr (c\<lparr>calls := calls c @
                 [SendMessage \<lparr>msg_method = ''SUBSCRIBE'', params = [t]\<rparr> (streams c)]\<rparr>))"
  by (simp add: change_subscription_result insert_absorb)

section \<open>Replay on open\<close>

text \<open>
  Every pass of the loop subscribes a topic that is in the set already, so the set and
  its size stay as they are and the iteration itself never raises. The loop runs to its
  end when the transport takes every message, and ends at the first send that raises.
\<close>

lemma replay_all_sent:
  "set order \<subseteq> streams c \<Longrightarrow>
   \<forall>t \<in> set order. \<not> raises \<lparr>msg_method = ''SUBSCRIBE'', params = [t]\<rparr> \<Longrightarrow>
   replay raises c (card (streams c)) order =
     Inr (c\<lparr>calls := calls c @
           map (\<lambda>t. SendMessage \<lparr>msg_method = ''SUBSCRIBE'', params = [t]\<rparr> (streams c))
             order\<rparr>)"
proof (induction order arbitrary: c)
  case Nil
  then show ?case by simp
next
  case (Cons t ts)
  let ?c' = "c\<lparr>calls := calls c @
                [SendMessage \<lparr>msg_method = ''SUBSCRIBE'', params = [t]\<rparr> (streams c)]\<rparr>"
  from Cons.prems have t: "t \<in> streams c"
    and ok: "\<not> raises \<lparr>msg_method = ''SUBSCRIBE'', params = [t]\<rparr>"
    and ts: "set ts \<subseteq> streams ?c'"
    and oks: "\<forall>t \<in> set ts. \<not> raises \<lparr>msg_method = ''SUBSCRIBE'', params = [t]\<rparr>"
    by simp_all
  have "replay raises c (card (streams c)) (t # ts) = replay raises ?c' (card (streams ?c')) ts"
    using t ok by (simp add: subscribe_member)
  also have "\<dots> = Inr (?c'\<lparr>calls := calls ?c' @
           map (\<lambda>t. SendMessage \<lparr>msg_method = ''SUBSCRIBE'', params = [t]\<rparr> (streams ?c')) ts\<rparr>)"
    by (rule Cons.IH [OF ts oks])
  finally show ?case by simp
qed

lemma replay_stops_at_raise:
  "set (ok @ t # later) \<subseteq> streams c \<Longrightarrow>
   \<forall>u \<in> set ok. \<not> raises \<lparr>msg_method = ''SUBSCRIBE'', params = [u]\<rparr> \<Longrightarrow>
   raises \<lparr>msg_method = ''SUBSCRIBE'', params = [t]\<rparr> \<Longrightarrow>
   replay raises c (card (streams c)) (ok @ t # later) =
     Inl (TransportError,
       c\<lparr>calls := calls c @
           map (\<lambda>u. SendMessage \<lparr>msg_method = ''SUBSCRIBE'', params = [u]\<rparr> (streams c)) ok @
           [SendRaised \<lparr>msg_method = ''SUBSCRIBE'', params = [t]\<rparr> (streams c)]\<rparr>)"
proof (induction ok arbitrary: c)
  case Nil
  then show ?case by (simp add: subscribe_member)
next
  case (Cons u us)
  let ?c' = "c\<lparr>calls := calls c @
                [SendMessage \<lparr>msg_method = ''SUBSCRIBE'', params = [u]\<rparr> (streams c)]\<rparr>"
  from Cons.prems have u: "u \<in> streams c"
    and ok: "\<not> raises \<lparr>msg_method = ''SUBSCRIBE'', params = [u]\<rparr>"
    and sub: "set (us @ t # later) \<subseteq> streams ?c'"
    and oks: "\<forall>u \<in> set us. \<not> raises \<lparr>msg_method = ''SUBSCRIBE'', params = [u]\<rparr>"
    by simp_all
  have "replay raises c (card (streams c)) ((u # us) @ t # later) =
          replay raises ?c' (card (streams ?c')) (us @ t # later)"
    using u ok by (simp add: subscribe_member)
  also have "\<dots> = Inl (TransportError,
       ?c'\<lparr>calls := calls ?c' @
           map (\<lambda>u. SendMessage \<lparr>msg_method = ''SUBSCRIBE'', params = [u]\<rparr> (streams ?c')) us @
           [SendRaised \<lparr>msg_method = ''SUBSCRIBE'', params = [t]\<rparr> (streams ?c')]\<rparr>)"
    by (rule Cons.IH [OF sub oks Cons.prems(3)])
  finally show ?case by simp
qed

section \<open>Sequences of calls\<close>

lemma streams_change_all:
  "(t \<in> streams (change_all c cs)) =
     (case last_action cs t of
        None \<Rightarrow> t \<in> streams c
      | Some (a, send_raised) \<Rightarrow> a = SUBSCRIBE \<or> send_raised)"
proof (induction cs arbitrary: c)
  case Nil
  then show ?case by simp
next
  case (Cons x cs)
  obtain s a r where x: "x = (s, a, r)" by (cases x)
  show ?case
    by (cases a) (auto simp: x Cons.IH streams_after_change split: option.splits)
qed

lemma last_action_None: "(last_action cs t = None) = (t \<notin> fst ` set cs)"
  by (induction cs t rule: last_action.induct) (auto split: option.splits)

lemma last_action_Some: "last_action cs t = Some a \<Longrightarrow> (t, a) \<in> set cs"
  by (induction cs t rule: last_action.induct) (auto split: option.splits if_splits)

lemma last_action_requests:
  "last_action (requests cs) t = map_option fst (last_action cs t)"
  by (induction cs t rule: last_action.induct) (auto simp: requests_def split: option.splits)

lemma last_action_subscribed:
  "(last_action cs t = Some SUBSCRIBE) = subscribed_not_since_unsubscribed cs t"
proof (induction cs t rule: last_action.induct)
  case (1 t)
  then show ?case by simp
next
  case (2 s a rest t)
  show ?case
  proof (cases "last_action rest t")
    case None
    then have "t \<notin> fst ` set rest" by (simp add: last_action_None)
    then have "(t, UNSUBSCRIBE) \<notin> set rest" by force
    with None 2 show ?thesis by auto
  next
    case (Some b)
    show ?thesis
    proof (cases b)
      case SUBSCRIBE
      with Some 2 show ?thesis by simp
    next
      case UNSUBSCRIBE
      with Some have "(t, UNSUBSCRIBE) \<in> set rest" by (simp add: last_action_Some)
      with Some UNSUBSCRIBE 2 show ?thesis by auto
    qed
  qed
qed

section \<open>Topics built by the public methods\<close>

text \<open>
  C6. For every symbol, interval and action, \<open>klines\<close> calls the transport once, with the
  command for the topic \<open>spot@public.kline.v3.api@\<close>, the upper-cased symbol, \<open>@\<close> and the
  interval's value as it is, and a subscribe puts that topic into the set. For an ASCII
  symbol the upper-cased symbol is spelled out: each letter a to z is replaced by the
  character 32 code points below it, everything else is kept.
  \<open>klines("btcusdt", Min15)\<close> gives \<open>spot@public.kline.v3.api@BTCUSDT@Min15\<close>.
\<close>

theorem klines_topic:
  "(let t = ''spot@public.kline.v3.api@'' @ upper unicode_upper symbol @ ''@'' @
            interval_value interval;
        m = \<lparr>msg_method = Action_value action, params = [t]\<rparr>
    in calls (state_after (klines unicode_upper raises c symbol interval action)) =
         calls c @ [if raises m then SendRaised m (insert t (streams c))
                    else SendMessage m (insert t (streams c))]
       \<and> streams (state_after (klines unicode_upper raises c symbol interval SUBSCRIBE)) =
           insert t (streams c))
   \<and> (is_ascii symbol \<longrightarrow>
        klines unicode_upper (\<lambda>m. False) c symbol interval SUBSCRIBE =
          (let t = ''spot@public.kline.v3.api@'' @
                   map (\<lambda>ch. if 97 \<le> (of_char ch :: nat) \<and> (of_char ch :: nat) \<le> 122
                             then char_of ((of_char ch :: nat) - 32) else ch) symbol @
                   ''@'' @ interval_value interval
           in Inr (c\<lparr>streams := insert t (streams c),
                     calls := calls c @
                       [SendMessage \<lparr>msg_method = ''SUBSCRIBE'', params = [t]\<rparr>
                          (insert t (streams c))]\<rparr>)))
   \<and> klines unicode_upper (\<lambda>m. False) (init b) ''btcusdt'' Min15 SUBSCRIBE =
       Inr \<lparr>streams = {''spot@public.kline.v3.api@BTCUSDT@Min15''}, on_open = b,
            calls = [SendMessage
                       \<lparr>msg_method = ''SUBSCRIBE'',
                        params = [''spot@public.kline.v3.api@BTCUSDT@Min15'']\<rparr>
                       {''spot@public.kline.v3.api@BTCUSDT@Min15''}]\<rparr>"
proof -
  have general:
    "calls (state_after (klines unicode_upper raises c symbol interval action)) =
       calls c @
       [if raises \<lparr>msg_method = Action_value action,
                   params = [''spot@public.kline.v3.api@'' @ upper unicode_upper symbol @ ''@'' @
                             interval_value interval]\<rparr>
        then SendRaised \<lparr>msg_method = Action_value action,
                   params = [''spot@public.kline.v3.api@'' @ upper unicode_upper symbol @ ''@'' @
                             interval_value interval]\<rparr>
               (insert (''spot@public.kline.v3.api@'' @ upper unicode_upper symbol @ ''@'' @
                        interval_value interval) (streams c))
        else SendMessage \<lparr>msg_method = Action_value action,
                   params = [''spot@public.kline.v3.api@'' @ upper unicode_upper symbol @ ''@'' @
                             interval_value interval]\<rparr>
               (insert (''spot@public.kline.v3.api@'' @ upper unicode_upper symbol @ ''@'' @
                        interval_value interval) (streams c))]"
    "streams (state_after (klines unicode_upper raises c symbol interval SUBSCRIBE)) =
       insert (''spot@public.kline.v3.api@'' @ upper unicode_upper symbol @ ''@'' @
               interval_value interval) (streams c)"
    by (simp_all add: klines_def calls_after_change streams_after_change)
  have ascii: "is_ascii symbol \<Longrightarrow>
        klines unicode_upper (\<lambda>m. False) c symbol interval SUBSCRIBE =
          (let t = ''spot@public.kline.v3.api@'' @
                   map (\<lambda>ch. if 97 \<le> (of_char ch :: nat) \<and> (of_char ch :: nat) \<le> 122
                             then char_of ((of_char ch :: nat) - 32) else ch) symbol @
                   ''@'' @ interval_value interval
           in Inr (c\<lparr>streams := insert t (streams c),
                     calls := calls c @
                       [SendMessage \<lparr>msg_method = ''SUBSCRIBE'', params = [t]\<rparr>
                          (insert t (streams c))]\<rparr>))"
    by (simp add: klines_def change_subscription_result upper_ascii Let_def)
  have concrete: "klines unicode_upper (\<lambda>m. False) (init b) ''btcusdt'' Min15 SUBSCRIBE =
       Inr \<lparr>streams = {''spot@public.kline.v3.api@BTCUSDT@Min15''}, on_open = b,
            calls = [SendMessage
                       \<lparr>msg_method = ''SUBSCRIBE'',
                        params = [''spot@public.kline.v3.api@BTCUSDT@Min15'']\<rparr>
                       {''spot@public.kline.v3.api@BTCUSDT@Min15''}]\<rparr>"
    by (simp add: klines_def change_subscription_result init_def Min15_def upper_def
        is_ascii_def upper_char_def)
  from general ascii concrete show ?thesis by (simp add: Let_def)
qed

text \<open>
  C6 at the ASCII symbol \<open>ethUsdt1\<close>, with mixed case and a digit.
\<close>

theorem klines_topic_witness:
  "is_ascii ''ethUsdt1''
   \<and> klines (\<lambda>s. s) (\<lambda>m. False) (init False :: unit SpotWebsocketStreamClient)
        ''ethUsdt1'' (StreamInterval ''Min1'') SUBSCRIBE =
       Inr \<lparr>streams = {''spot@public.kline.v3.api@ETHUSDT1@Min1''}, on_open = False,
            calls = [SendMessage
                       \<lparr>msg_method = ''SUBSCRIBE'',
                        params = [''spot@public.kline.v3.api@ETHUSDT1@Min1'']\<rparr>
                       {''spot@public.kline.v3.api@ETHUSDT1@Min1''}]\<rparr>"
proof -
  have h: "is_ascii ''ethUsdt1''" by (simp add: is_ascii_def)
  have u: "map (\<lambda>ch. if 97 \<le> (of_char ch :: nat) \<and> (of_char ch :: nat) \<le> 122
                             then char_of ((of_char ch :: nat) - 32) else ch) ''ethUsdt1''
           = ''ETHUSDT1''"
    by (simp add: char_of_def bit_Suc_0_iff)
  from klines_topic [of "\<lambda>s. s" "''ethUsdt1''" "StreamInterval ''Min1''" SUBSCRIBE
      "\<lambda>m. False" "init False :: unit SpotWebsocketStreamClient" False]
  have "klines (\<lambda>s. s) (\<lambda>m. False) (init False :: unit SpotWebsocketStreamClient)
        ''ethUsdt1'' (StreamInterval ''Min1'') SUBSCRIBE =
          (let t = ''spot@public.kline.v3.api@'' @
                   map (\<lambda>ch. if 97 \<le> (of_char ch :: nat) \<and> (of_char ch :: nat) \<le> 122
                             then char_of ((of_char ch :: nat) - 32) else ch) ''ethUsdt1'' @
                   ''@'' @ interval_value (StreamInterval ''Min1'')
           in Inr ((init False)\<lparr>streams := insert t (streams (init False :: unit SpotWebsocketStreamClient)),
                     calls := calls (init False :: unit SpotWebsocketStreamClient) @
                       [SendMessage \<lparr>msg_method = ''SUBSCRIBE'', params = [t]\<rparr>
                          (insert t (streams (init False :: unit SpotWebsocketStreamClient)))]\<rparr>))"
    using h by blast
  then show ?thesis
    using h unfolding u by (simp add: init_def Let_def)
qed

text \<open>
  C1, as the code has it. \<open>partial_depth\<close> checks nothing at run time: the
  restriction of \<open>level\<close> to 5, 10 and 20 is the annotation \<open>Literal[5, 10, 20]\<close> only. For
  every symbol, every integer level and every action, the call builds the topic
  \<open>spot@public.limit.depth.v3.api@\<close>, the upper-cased symbol, \<open>@\<close> and the decimal digits
  of the level, adds it to the set and calls the transport exactly once with the command
  for it. With \<open>"ethusdt"\<close> and level 20 the topic is
  \<open>spot@public.limit.depth.v3.api@ETHUSDT@20\<close>; with level 7 it is
  \<open>spot@public.limit.depth.v3.api@ETHUSDT@7\<close>, and it is sent.
\<close>

theorem partial_depth_any_level:
  "(let t = ''spot@public.limit.depth.v3.api@'' @ upper unicode_upper symbol @ ''@'' @
            str_int level;
        m = \<lparr>msg_method = Action_value action, params = [t]\<rparr>
    in calls (state_after (partial_depth unicode_upper raises c symbol level action)) =
         calls c @ [if raises m then SendRaised m (insert t (streams c))
                    else SendMessage m (insert t (streams c))]
       \<and> streams (state_after (partial_depth unicode_upper raises c symbol level SUBSCRIBE)) =
           insert t (streams c))
   \<and> partial_depth unicode_upper (\<lambda>m. False) (init b) ''ethusdt'' 20 SUBSCRIBE =
       Inr \<lparr>streams = {''spot@public.limit.depth.v3.api@ETHUSDT@20''}, on_open = b,
            calls = [SendMessage
                       \<lparr>msg_method = ''SUBSCRIBE'',
                        params = [''spot@public.limit.depth.v3.api@ETHUSDT@20'']\<rparr>
                       {''spot@public.limit.depth.v3.api@ETHUSDT@20''}]\<rparr>
   \<and> partial_depth unicode_upper (\<lambda>m. False) (init b) ''ethusdt'' 7 SUBSCRIBE =
       Inr \<lparr>streams = {''spot@public.limit.depth.v3.api@ETHUSDT@7''}, on_open = b,
            calls = [SendMessage
                       \<lparr>msg_method = ''SUBSCRIBE'',
                        params = [''spot@public.limit.depth.v3.api@ETHUSDT@7'']\<rparr>
                       {''spot@public.limit.depth.v3.api@ETHUSDT@7''}]\<rparr>"
proof -
  have concrete:
    "partial_depth unicode_upper (\<lambda>m. False) (init b) ''ethusdt'' 20 SUBSCRIBE =
       Inr \<lparr>streams = {''spot@public.limit.depth.v3.api@ETHUSDT@20''}, on_open = b,
            calls = [SendMessage
                       \<lparr>msg_method = ''SUBSCRIBE'',
                        params = [''spot@public.limit.depth.v3.api@ETHUSDT@20'']\<rparr>
                       {''spot@public.limit.depth.v3.api@ETHUSDT@20''}]\<rparr>"
    "partial_depth unicode_upper (\<lambda>m. False) (init b) ''ethusdt'' 7 SUBSCRIBE =
       Inr \<lparr>streams = {''spot@public.limit.depth.v3.api@ETHUSDT@7''}, on_open = b,
            calls = [SendMessage
                       \<lparr>msg_method = ''SUBSCRIBE'',
                        params = [''spot@public.limit.depth.v3.api@ETHUSDT@7'']\<rparr>
                       {''spot@public.limit.depth.v3.api@ETHUSDT@7''}]\<rparr>"
    by (simp_all add: partial_depth_def change_subscription_result init_def upper_def
        is_ascii_def upper_char_def str_int_def digit_char_def)
  show ?thesis
    unfolding Let_def
    by (simp add: concrete) (simp add: partial_depth_def calls_after_change streams_after_change)
qed

text \<open>
  C1, as the spec states it, at \<open>partial_depth("ethusdt", 7)\<close> on a fresh client: 7 is
  outside 5, 10, 20, and yet the log and the set are not what they were before the call.
\<close>

theorem partial_depth_level_7_counterexample:
  "\<not> ((7::int) \<notin> {5, 10, 20} \<longrightarrow>
        calls (state_after (partial_depth (\<lambda>s. s) (\<lambda>m. False)
                 (init False :: unit SpotWebsocketStreamClient) ''ethusdt'' 7 SUBSCRIBE))
          = calls (init False :: unit SpotWebsocketStreamClient)
      \<and> streams (state_after (partial_depth (\<lambda>s. s) (\<lambda>m. False)
                 (init False :: unit SpotWebsocketStreamClient) ''ethusdt'' 7 SUBSCRIBE))
          = streams (init False :: unit SpotWebsocketStreamClient))"
  by (simp add: partial_depth_def calls_after_change streams_after_change init_def)

section \<open>Subscribe and unsubscribe\<close>

text \<open>
  C5. A subscribe adds the topic to the set first (the set seen at the send contains it)
  and then calls the transport exactly once, with a message whose method is \<open>SUBSCRIBE\<close>,
  the value of the action, and whose params is the one-element list of that topic. This
  holds whether the send returns or raises; when it returns, the topic is in the set and
  the message is the one new entry of the log.
\<close>

theorem subscribe_adds_then_sends:
  "calls (state_after (priv_change_subscription raises c topic SUBSCRIBE)) =
     calls c @
     [if raises \<lparr>msg_method = ''SUBSCRIBE'', params = [topic]\<rparr>
      then SendRaised \<lparr>msg_method = ''SUBSCRIBE'', params = [topic]\<rparr> (insert topic (streams c))
      else SendMessage \<lparr>msg_method = ''SUBSCRIBE'', params = [topic]\<rparr> (insert topic (streams c))]
   \<and> streams (state_after (priv_change_subscription raises c topic SUBSCRIBE)) =
       insert topic (streams c)
   \<and> priv_change_subscription (\<lambda>m. False) c topic SUBSCRIBE =
       Inr (c\<lparr>streams := insert topic (streams c),
              calls := calls c @
                [SendMessage \<lparr>msg_method = ''SUBSCRIBE'', params = [topic]\<rparr>
                   (insert topic (streams c))]\<rparr>)
   \<and> sent (calls (state_after (priv_change_subscription (\<lambda>m. False) c topic SUBSCRIBE))) =
       sent (calls c) @ [\<lparr>msg_method = Action_value SUBSCRIBE, params = [topic]\<rparr>]"
  by (simp add: calls_after_change streams_after_change change_subscription_result sent_append)

text \<open>
  C7. Subscribing to one topic twice in a row leaves the topic in the set once (from the
  empty set, a set of size 1), whatever the transport does with the two sends; the
  transport is called twice, and takes two \<open>SUBSCRIBE\<close> commands when it does not raise.
\<close>

theorem subscribe_twice:
  "streams (state_after (priv_change_subscription raises2
      (state_after (priv_change_subscription raises1 c topic SUBSCRIBE)) topic SUBSCRIBE))
     = insert topic (streams c)
   \<and> streams (state_after (priv_change_subscription raises2
        (state_after (priv_change_subscription raises1 (init b) topic SUBSCRIBE))
        topic SUBSCRIBE)) = {topic}
   \<and> card (streams (state_after (priv_change_subscription raises2
        (state_after (priv_change_subscription raises1 (init b) topic SUBSCRIBE))
        topic SUBSCRIBE))) = 1
   \<and> sent (calls (state_after (priv_change_subscription (\<lambda>m. False)
        (state_after (priv_change_subscription (\<lambda>m. False) c topic SUBSCRIBE))
        topic SUBSCRIBE))) =
       sent (calls c) @ [\<lparr>msg_method = ''SUBSCRIBE'', params = [topic]\<rparr>,
                         \<lparr>msg_method = ''SUBSCRIBE'', params = [topic]\<rparr>]
   \<and> length (calls (state_after (priv_change_subscription raises2
        (state_after (priv_change_subscription raises1 c topic SUBSCRIBE))
        topic SUBSCRIBE))) = length (calls c) + 2"
  by (simp add: calls_after_change streams_after_change sent_append init_def)

text \<open>
  C2, as the code has it. An unsubscribe adds the topic to the set (line 53 runs for both
  actions), then calls the transport, and removes the topic after the send has returned.
  The set seen at the send is the starting set with the topic added, so it equals the
  starting set exactly when the topic was a member already. When the send returns, the
  set after the call is the starting set without the topic; when the send raises, the
  removal does not run and the set stays the starting set with the topic added.
\<close>

theorem unsubscribe_sends_before_removing:
  "priv_change_subscription raises c topic UNSUBSCRIBE =
     (if raises \<lparr>msg_method = ''UNSUBSCRIBE'', params = [topic]\<rparr>
      then Inl (TransportError,
             c\<lparr>streams := insert topic (streams c),
               calls := calls c @
                 [SendRaised \<lparr>msg_method = ''UNSUBSCRIBE'', params = [topic]\<rparr>
                    (insert topic (streams c))]\<rparr>)
      else Inr (c\<lparr>streams := streams c - {topic},
                 calls := calls c @
                   [SendMessage \<lparr>msg_method = ''UNSUBSCRIBE'', params = [topic]\<rparr>
                      (insert topic (streams c))]\<rparr>))
   \<and> (insert topic (streams c) = streams c) = (topic \<in> streams c)"
  by (auto simp add: change_subscription_result)

text \<open>
  C2, as the spec states it, on a fresh client, a topic that was never subscribed and a
  transport that takes the message: the set seen at the send is not the (empty) set the
  call started with.
\<close>

theorem unsubscribe_set_at_send_counterexample:
  "calls (state_after (priv_change_subscription (\<lambda>m. False)
            (init False :: unit SpotWebsocketStreamClient)
            ''spot@private.deals.v3.api'' UNSUBSCRIBE))
   \<noteq> calls (init False :: unit SpotWebsocketStreamClient) @
       [SendMessage \<lparr>msg_method = ''UNSUBSCRIBE'', params = [''spot@private.deals.v3.api'']\<rparr>
          (streams (init False :: unit SpotWebsocketStreamClient))]"
  by (simp add: calls_after_change init_def)

text \<open>
  C10, as the code has it. Unsubscribing from a topic that is not in the set still calls
  the transport exactly once with the \<open>UNSUBSCRIBE\<close> command for it. When the send
  returns, the set after the call is the set before it; when the send raises, the set
  after the call is the set before it with the topic added.
\<close>

theorem unsubscribe_non_member:
  "topic \<notin> streams c \<Longrightarrow>
   calls (state_after (priv_change_subscription raises c topic UNSUBSCRIBE)) =
     calls c @
     [if raises \<lparr>msg_method = ''UNSUBSCRIBE'', params = [topic]\<rparr>
      then SendRaised \<lparr>msg_method = ''UNSUBSCRIBE'', params = [topic]\<rparr>
             (insert topic (streams c))
      else SendMessage \<lparr>msg_method = ''UNSUBSCRIBE'', params = [topic]\<rparr>
             (insert topic (streams c))]
   \<and> streams (state_after (priv_change_subscription raises c topic UNSUBSCRIBE)) =
       (if raises \<lparr>msg_method = ''UNSUBSCRIBE'', params = [topic]\<rparr>
        then insert topic (streams c) else streams c)
   \<and> (\<not> raises \<lparr>msg_method = ''UNSUBSCRIBE'', params = [topic]\<rparr> \<longrightarrow>
        sent (calls (state_after (priv_change_subscription raises c topic UNSUBSCRIBE))) =
          sent (calls c) @ [\<lparr>msg_method = ''UNSUBSCRIBE'', params = [topic]\<rparr>])"
  by (simp add: calls_after_change streams_after_change sent_append)

text \<open>
  C10 on a fresh client, whose set is empty, with a transport that takes the message and
  with one that raises.
\<close>

theorem unsubscribe_non_member_witness:
  "''spot@private.orders.v3.api'' \<notin> streams (init False :: unit SpotWebsocketStreamClient)
   \<and> \<not> (\<lambda>m. False) \<lparr>msg_method = ''UNSUBSCRIBE'', params = [''spot@private.orders.v3.api'']\<rparr>
   \<and> sent (calls (state_after (priv_change_subscription (\<lambda>m. False)
        (init False :: unit SpotWebsocketStreamClient)
        ''spot@private.orders.v3.api'' UNSUBSCRIBE))) =
       [\<lparr>msg_method = ''UNSUBSCRIBE'', params = [''spot@private.orders.v3.api'']\<rparr>]
   \<and> streams (state_after (priv_change_subscription (\<lambda>m. False)
        (init False :: unit SpotWebsocketStreamClient)
        ''spot@private.orders.v3.api'' UNSUBSCRIBE)) = {}
   \<and> streams (state_after (priv_change_subscription (\<lambda>m. True)
        (init False :: unit SpotWebsocketStreamClient)
        ''spot@private.orders.v3.api'' UNSUBSCRIBE)) = {''spot@private.orders.v3.api''}"
proof -
  have h: "''spot@private.orders.v3.api'' \<notin> streams (init False :: unit SpotWebsocketStreamClient)"
    by (simp add: init_def)
  show ?thesis
    using h unsubscribe_non_member [OF h, of "\<lambda>m. False"]
      unsubscribe_non_member [OF h, of "\<lambda>m. True"]
    by (simp add: init_def)
qed

text \<open>
  C10, as the spec states it, on a fresh client and a transport that raises: the topic
  was not in the set before the call and is in it afterwards.
\<close>

theorem unsubscribe_non_member_counterexample:
  "''spot@private.orders.v3.api'' \<notin> streams (init False :: unit SpotWebsocketStreamClient)
   \<and> streams (state_after (priv_change_subscription (\<lambda>m. True)
        (init False :: unit SpotWebsocketStreamClient)
        ''spot@private.orders.v3.api'' UNSUBSCRIBE))
     \<noteq> streams (init False :: unit SpotWebsocketStreamClient)"
  by (simp add: streams_after_change init_def)

text \<open>
  C3, as the code has it. Starting from the empty set, after any finite sequence of
  subscribe and unsubscribe calls a topic is in the set if and only if its most recent
  call was a subscribe, or an unsubscribe whose send raised. When no unsubscribe's send
  raises, the set holds exactly the topics whose most recent action was a subscribe; put
  differently, a topic is in the set if and only if it was subscribed and not
  unsubscribed since.
\<close>

theorem last_call_decides:
  "(t \<in> streams (change_all (init b) cs)) =
     (case last_action cs t of
        None \<Rightarrow> False
      | Some (a, send_raised) \<Rightarrow> a = SUBSCRIBE \<or> send_raised)
   \<and> ((\<forall>(s, a, send_raised) \<in> set cs. a = UNSUBSCRIBE \<longrightarrow> \<not> send_raised) \<longrightarrow>
        streams (change_all (init b) cs) = {t. last_action (requests cs) t = Some SUBSCRIBE}
        \<and> (t \<in> streams (change_all (init b) cs)) =
            subscribed_not_since_unsubscribed (requests cs) t)"
proof -
  have general: "(u \<in> streams (change_all (init b) cs)) =
     (case last_action cs u of
        None \<Rightarrow> False
      | Some (a, send_raised) \<Rightarrow> a = SUBSCRIBE \<or> send_raised)" for u
    by (simp add: streams_change_all init_def split: option.splits)
  have quiet: "(u \<in> streams (change_all (init b) cs)) =
      (last_action (requests cs) u = Some SUBSCRIBE)"
    if ok: "\<forall>(s, a, send_raised) \<in> set cs. a = UNSUBSCRIBE \<longrightarrow> \<not> send_raised" for u
  proof (cases "last_action cs u")
    case None
    then show ?thesis by (simp add: general last_action_requests)
  next
    case (Some p)
    obtain a r where p: "p = (a, r)" by (cases p)
    from Some p have "(u, a, r) \<in> set cs" by (simp add: last_action_Some)
    with ok have "a = UNSUBSCRIBE \<longrightarrow> \<not> r" by blast
    then have "(a = SUBSCRIBE \<or> r) = (a = SUBSCRIBE)" by (cases a) simp_all
    with Some p show ?thesis by (simp add: general last_action_requests)
  qed
  have set_eq: "streams (change_all (init b) cs) =
      {t. last_action (requests cs) t = Some SUBSCRIBE}"
    if ok: "\<forall>(s, a, send_raised) \<in> set cs. a = UNSUBSCRIBE \<longrightarrow> \<not> send_raised"
    using quiet [OF ok] by blast
  have quiet_case:
    "(\<forall>(s, a, send_raised) \<in> set cs. a = UNSUBSCRIBE \<longrightarrow> \<not> send_raised) \<longrightarrow>
        streams (change_all (init b) cs) = {t. last_action (requests cs) t = Some SUBSCRIBE}
        \<and> (t \<in> streams (change_all (init b) cs)) =
            subscribed_not_since_unsubscribed (requests cs) t"
  proof
    assume ok: "\<forall>(s, a, send_raised) \<in> set cs. a = UNSUBSCRIBE \<longrightarrow> \<not> send_raised"
    from quiet [OF ok, of t]
    have "(t \<in> streams (change_all (init b) cs)) =
            subscribed_not_since_unsubscribed (requests cs) t"
      by (simp add: last_action_subscribed)
    with set_eq [OF ok]
    show "streams (change_all (init b) cs) = {t. last_action (requests cs) t = Some SUBSCRIBE}
        \<and> (t \<in> streams (change_all (init b) cs)) =
            subscribed_not_since_unsubscribed (requests cs) t"
      by (rule conjI)
  qed
  from general [of t] quiet_case show ?thesis by (rule conjI)
qed

text \<open>
  C3 on the calls subscribe A, subscribe B (send raises), unsubscribe A, subscribe A,
  unsubscribe B, subscribe C (send raises): no unsubscribe's send raises, A is in the set
  and B is not.
\<close>

theorem last_call_decides_witness:
  "''A'' \<in> streams (change_all (init False :: unit SpotWebsocketStreamClient)
       [(''A'', SUBSCRIBE, False), (''B'', SUBSCRIBE, True),
        (''A'', UNSUBSCRIBE, False), (''A'', SUBSCRIBE, False), (''B'', UNSUBSCRIBE, False),
        (''C'', SUBSCRIBE, True)])
   \<and> ''B'' \<notin> streams (change_all (init False :: unit SpotWebsocketStreamClient)
       [(''A'', SUBSCRIBE, False), (''B'', SUBSCRIBE, True),
        (''A'', UNSUBSCRIBE, False), (''A'', SUBSCRIBE, False), (''B'', UNSUBSCRIBE, False),
        (''C'', SUBSCRIBE, True)])
   \<and> subscribed_not_since_unsubscribed (requests [(''A'', SUBSCRIBE, False), (''B'', SUBSCRIBE, True),
        (''A'', UNSUBSCRIBE, False), (''A'', SUBSCRIBE, False), (''B'', UNSUBSCRIBE, False),
        (''C'', SUBSCRIBE, True)]) ''A''
   \<and> \<not> subscribed_not_since_unsubscribed (requests [(''A'', SUBSCRIBE, False), (''B'', SUBSCRIBE, True),
        (''A'', UNSUBSCRIBE, False), (''A'', SUBSCRIBE, False), (''B'', UNSUBSCRIBE, False),
        (''C'', SUBSCRIBE, True)]) ''B''"
proof -
  let ?cs = "[(''A'', SUBSCRIBE, False), (''B'', SUBSCRIBE, True),
        (''A'', UNSUBSCRIBE, False), (''A'', SUBSCRIBE, False), (''B'', UNSUBSCRIBE, False),
        (''C'', SUBSCRIBE, True)]"
  have h: "\<forall>(s, a, send_raised) \<in> set ?cs. a = UNSUBSCRIBE \<longrightarrow> \<not> send_raised" by simp
  have A: "subscribed_not_since_unsubscribed (requests ?cs) ''A''" by (simp add: requests_def)
  have B: "\<not> subscribed_not_since_unsubscribed (requests ?cs) ''B''" by (simp add: requests_def)
  from last_call_decides [of "''A''" False ?cs] h A
  have 1: "''A'' \<in> streams (change_all (init False :: unit SpotWebsocketStreamClient) ?cs)"
    by blast
  from last_call_decides [of "''B''" False ?cs] h B
  have 2: "''B'' \<notin> streams (change_all (init False :: unit SpotWebsocketStreamClient) ?cs)"
    by blast
  from 1 2 A B show ?thesis by blast
qed

text \<open>
  C3, as the spec states it, on the single call unsubscribe T with a send that raises:
  T is in the set although its most recent action is an unsubscribe and it was never
  subscribed.
\<close>

theorem last_action_wins_counterexample:
  "''T'' \<in> streams (change_all (init False :: unit SpotWebsocketStreamClient)
              [(''T'', UNSUBSCRIBE, True)])
   \<and> last_action (requests [(''T'', UNSUBSCRIBE, True)]) ''T'' = Some UNSUBSCRIBE
   \<and> \<not> subscribed_not_since_unsubscribed (requests [(''T'', UNSUBSCRIBE, True)]) ''T''"
  by (simp add: streams_after_change init_def requests_def)

section \<open>Transport events\<close>

text \<open>
  C4, as the code has it. When the transport opens and takes every message, the handler
  sends one \<open>SUBSCRIBE\<close> command for each topic of the set, whatever the order of
  iteration and however the topic came into the set, and then calls the caller's
  \<open>on_open\<close>, when one is registered; the number of commands is the size of the set. When
  a send raises, the handler stops there: the topics iterated before it have had their
  command sent, the topics after it get none, \<open>on_open\<close> is not called, and the error goes
  to whoever called the handler. The set is the same afterwards in both cases.
\<close>

theorem on_open_replay:
  assumes "distinct order" and "set order = streams c"
  shows "((\<forall>t \<in> streams c. \<not> raises \<lparr>msg_method = ''SUBSCRIBE'', params = [t]\<rparr>) \<longrightarrow>
            priv_on_open raises c order =
              Inr (c\<lparr>calls := calls c @
                     map (\<lambda>t. SendMessage \<lparr>msg_method = ''SUBSCRIBE'', params = [t]\<rparr> (streams c))
                       order @
                     (if on_open c then [OnOpen] else [])\<rparr>))
         \<and> (order = earlier @ t # later
             \<and> (\<forall>u \<in> set earlier. \<not> raises \<lparr>msg_method = ''SUBSCRIBE'', params = [u]\<rparr>)
             \<and> raises \<lparr>msg_method = ''SUBSCRIBE'', params = [t]\<rparr> \<longrightarrow>
            priv_on_open raises c order =
              Inl (TransportError,
                c\<lparr>calls := calls c @
                    map (\<lambda>u. SendMessage \<lparr>msg_method = ''SUBSCRIBE'', params = [u]\<rparr> (streams c))
                      earlier @
                    [SendRaised \<lparr>msg_method = ''SUBSCRIBE'', params = [t]\<rparr> (streams c)]\<rparr>))
         \<and> length order = card (streams c)"
proof -
  from assms(2) have sub: "set order \<subseteq> streams c" by simp
  have len: "length order = card (streams c)"
    using distinct_card [OF assms(1)] assms(2) by simp
  have all_sent: "priv_on_open raises c order =
              Inr (c\<lparr>calls := calls c @
                     map (\<lambda>t. SendMessage \<lparr>msg_method = ''SUBSCRIBE'', params = [t]\<rparr> (streams c))
                       order @
                     (if on_open c then [OnOpen] else [])\<rparr>)"
    if "\<forall>t \<in> streams c. \<not> raises \<lparr>msg_method = ''SUBSCRIBE'', params = [t]\<rparr>"
  proof -
    from that assms(2)
    have "\<forall>t \<in> set order. \<not> raises \<lparr>msg_method = ''SUBSCRIBE'', params = [t]\<rparr>" by simp
    from replay_all_sent [OF sub this] show ?thesis
      by (simp add: priv_on_open_def)
  qed
  have stops: "priv_on_open raises c order =
              Inl (TransportError,
                c\<lparr>calls := calls c @
                    map (\<lambda>u. SendMessage \<lparr>msg_method = ''SUBSCRIBE'', params = [u]\<rparr> (streams c))
                      earlier @
                    [SendRaised \<lparr>msg_method = ''SUBSCRIBE'', params = [t]\<rparr> (streams c)]\<rparr>)"
    if split: "order = earlier @ t # later"
      and ok: "\<forall>u \<in> set earlier. \<not> raises \<lparr>msg_method = ''SUBSCRIBE'', params = [u]\<rparr>"
      and bad: "raises \<lparr>msg_method = ''SUBSCRIBE'', params = [t]\<rparr>"
  proof -
    from sub split have "set (earlier @ t # later) \<subseteq> streams c" by simp
    from replay_stops_at_raise [OF this ok bad] split show ?thesis
      by (simp add: priv_on_open_def)
  qed
  from all_sent stops len show ?thesis by blast
qed

text \<open>
  C4 on the set {A, B}, iterated as B, A, with a registered callback: with a transport
  that takes every message, two commands and then the callback; with a transport that
  raises on the message for A, the command for B, the raise at A, and no callback.
\<close>

theorem on_open_replay_witness:
  "distinct [''B'', ''A'']
   \<and> set [''B'', ''A''] =
       streams \<lparr>streams = {''A'', ''B''}, on_open = True, calls = ([] :: unit event list)\<rparr>
   \<and> priv_on_open (\<lambda>m. False)
        \<lparr>streams = {''A'', ''B''}, on_open = True, calls = ([] :: unit event list)\<rparr>
        [''B'', ''A''] =
       Inr \<lparr>streams = {''A'', ''B''}, on_open = True,
            calls = [SendMessage \<lparr>msg_method = ''SUBSCRIBE'', params = [''B'']\<rparr> {''A'', ''B''},
                     SendMessage \<lparr>msg_method = ''SUBSCRIBE'', params = [''A'']\<rparr> {''A'', ''B''},
                     OnOpen]\<rparr>
   \<and> priv_on_open (\<lambda>m. params m = [''A''])
        \<lparr>streams = {''A'', ''B''}, on_open = True, calls = ([] :: unit event list)\<rparr>
        [''B'', ''A''] =
       Inl (TransportError,
         \<lparr>streams = {''A'', ''B''}, on_open = True,
          calls = [SendMessage \<lparr>msg_method = ''SUBSCRIBE'', params = [''B'']\<rparr> {''A'', ''B''},
                   SendRaised \<lparr>msg_method = ''SUBSCRIBE'', params = [''A'']\<rparr> {''A'', ''B''}]\<rparr>)"
proof -
  have d: "distinct [''B'', ''A'']" by simp
  have s: "set [''B'', ''A''] =
      streams \<lparr>streams = {''A'', ''B''}, on_open = True, calls = ([] :: unit event list)\<rparr>"
    by auto
  show ?thesis
    using d s on_open_replay [OF d s, of "\<lambda>m. False"]
      on_open_replay [OF d s, of "\<lambda>m. params m = [''A'']" "[''B'']" "''A''" "[]"]
    by simp
qed

text \<open>
  C4, as the spec states it, on the set {A, B}, iterated as A, B, with a transport that
  raises: the only call of the transport is the one for A, no command is ever handed
  over for B, and the registered callback is not called.
\<close>

theorem on_open_replay_counterexample:
  "distinct [''A'', ''B'']
   \<and> set [''A'', ''B''] =
       streams \<lparr>streams = {''A'', ''B''}, on_open = True, calls = ([] :: unit event list)\<rparr>
   \<and> priv_on_open (\<lambda>m. True)
        \<lparr>streams = {''A'', ''B''}, on_open = True, calls = ([] :: unit event list)\<rparr>
        [''A'', ''B''] =
       Inl (TransportError,
         \<lparr>streams = {''A'', ''B''}, on_open = True,
          calls = [SendRaised \<lparr>msg_method = ''SUBSCRIBE'', params = [''A'']\<rparr> {''A'', ''B''}]\<rparr>)"
  by (simp add: priv_on_open_def change_subscription_result insert_commute)

text \<open>
  C8. When the payload does not decode, the handler raises the decoder's error to whoever
  called it, with the client as it was: \<open>on_message\<close> is not called and the set is
  untouched. When the payload decodes, the handler passes the decoded document, as it is,
  to \<open>on_message\<close>.
\<close>

theorem on_message_decode:
  "(loads message = None \<longrightarrow> priv_on_message loads c message = Inl (JSONDecodeError, c))
   \<and> (loads message = Some doc \<longrightarrow>
        priv_on_message loads c message = Inr (c\<lparr>calls := calls c @ [OnMessage doc]\<rparr>))"
  by (simp add: priv_on_message_def)

text \<open>
  C8 with a decoder that accepts \<open>{}\<close> only: the payload \<open>{oops\<close> raises, the payload
  \<open>{}\<close> reaches \<open>on_message\<close> as the empty document.
\<close>

theorem on_message_decode_witness:
  "(\<lambda>s. if s = ''{}'' then Some ([] :: (string \<times> string) list) else None) ''{oops'' = None
   \<and> priv_on_message (\<lambda>s. if s = ''{}'' then Some ([] :: (string \<times> string) list) else None)
        (init True) ''{oops'' = Inl (JSONDecodeError, init True)
   \<and> (\<lambda>s. if s = ''{}'' then Some ([] :: (string \<times> string) list) else None) ''{}'' = Some []
   \<and> priv_on_message (\<lambda>s. if s = ''{}'' then Some ([] :: (string \<times> string) list) else None)
        (init True) ''{}'' = Inr \<lparr>streams = {}, on_open = True, calls = [OnMessage []]\<rparr>"
  using on_message_decode
          [of "\<lambda>s. if s = ''{}'' then Some ([] :: (string \<times> string) list) else None"
              "''{oops''" "init True" "[]"]
        on_message_decode
          [of "\<lambda>s. if s = ''{}'' then Some ([] :: (string \<times> string) list) else None"
              "''{}''" "init True" "[]"]
  by (simp add: init_def)

text \<open>
  C9. \<open>stop\<close> closes the transport and leaves the set of topics as it was.
\<close>

theorem stop_keeps_streams:
  "streams (stop c) = streams c \<and> calls (stop c) = calls c @ [Close]"
  by (simp add: stop_def close_def)

end
